theory Spec2Isabelle
  imports Complex_Main
begin

text \<open>
  A shallow embedding of \<^verbatim>\<open>src/index.js\<close>: the dependency resolver
  \<^verbatim>\<open>getDependencies\<close>, the graph serializer \<^verbatim>\<open>generateDotGraph\<close> and the
  render pipeline \<^verbatim>\<open>generateImageFromDot\<close>. Everything outside the program (the registry
  behind \<^verbatim>\<open>axios.get\<close>, the file system behind \<^verbatim>\<open>fs.writeFileSync\<close>, the shell
  behind \<^verbatim>\<open>exec\<close>) is a parameter: a function from a world of an arbitrary type
  \<open>'w\<close> to an outcome and the next world. The calls the program makes to the outside and
  the lines it prints are recorded, in order, in a trace.
\<close>


section \<open>JavaScript values\<close>

text \<open>
  A thrown value is an \<^verbatim>\<open>Error\<close> object, of which the program reads the
  \<^verbatim>\<open>message\<close> only: axios rejects with an \<^verbatim>\<open>AxiosError\<close>, the file system and
  \<^verbatim>\<open>exec\<close> report a system error, and a property read on \<^verbatim>\<open>undefined\<close> or
  \<^verbatim>\<open>null\<close> throws a \<^verbatim>\<open>TypeError\<close>.

  A value is what a response can hold. An object is the list of its own enumerable
  string-keyed properties in the order of their creation (keys pairwise distinct). A number
  is kept only as far as its truthiness needs: \<^verbatim>\<open>NaN\<close>, \<^verbatim>\<open>-0\<close>, the infinities,
  or a finite value. A string is the list of its code units.
\<close>

datatype js_error = Error (message: string)

datatype js_number = NaN | NegZero | PosInfinity | NegInfinity | Finite rat

datatype jsval =
    JUndefined
  | JNull
  | JBool bool
  | JNum js_number
  | JBigInt int
  | JStr string
  | JArr "jsval list"
  | JObj "(string \<times> jsval) list"

text \<open>\<^verbatim>\<open>ToBoolean\<close>, and \<^verbatim>\<open>a || b\<close> on values.\<close>

fun truthy :: "jsval \<Rightarrow> bool" where
  "truthy JUndefined = False"
| "truthy JNull = False"
| "truthy (JBool b) = b"
| "truthy (JNum n) = (n \<noteq> NaN \<and> n \<noteq> NegZero \<and> n \<noteq> Finite 0)"
| "truthy (JBigInt i) = (i \<noteq> 0)"
| "truthy (JStr s) = (s \<noteq> [])"
| "truthy (JArr xs) = True"
| "truthy (JObj ps) = True"

definition js_or :: "jsval \<Rightarrow> jsval \<Rightarrow> jsval" where
  "js_or a b = (if truthy a then a else b)"

text \<open>
  The property read \<^verbatim>\<open>v.p\<close>, for a name \<open>p\<close> that no built-in prototype defines
  and that is neither an index nor \<^verbatim>\<open>length\<close> (the program reads \<^verbatim>\<open>data\<close> and
  \<^verbatim>\<open>dependencies\<close>): an object answers with its own property or \<^verbatim>\<open>undefined\<close>,
  \<^verbatim>\<open>undefined\<close> and \<^verbatim>\<open>null\<close> throw, every other value answers \<^verbatim>\<open>undefined\<close>.
  The message of the \<^verbatim>\<open>TypeError\<close> is the one V8 prints.
\<close>

definition quote_char :: string where
  "quote_char = [CHR 0x27]"

fun get_prop :: "jsval \<Rightarrow> string \<Rightarrow> js_error + jsval" where
  "get_prop (JObj ps) p = Inr (case map_of ps p of Some v \<Rightarrow> v | None \<Rightarrow> JUndefined)"
| "get_prop JUndefined p =
     Inl (Error (''Cannot read properties of undefined (reading '' @ quote_char @ p @ quote_char @ '')''))"
| "get_prop JNull p =
     Inl (Error (''Cannot read properties of null (reading '' @ quote_char @ p @ quote_char @ '')''))"
| "get_prop v p = Inr JUndefined"

text \<open>
  \<^verbatim>\<open>Object.entries\<close>: the own enumerable string-keyed properties, array indices first
  in ascending numeric order, then the other keys in creation order. An array index is the
  canonical decimal form of an integer from 0 to \<^verbatim>\<open>2^32 - 2\<close>. An array and a string list
  their elements under the indices; the other primitive values have no entries.
\<close>

definition digit_char :: "nat \<Rightarrow> char" where
  "digit_char d = char_of (48 + d)"

fun string_of_nat :: "nat \<Rightarrow> string" where
  "string_of_nat n =
     (if n < 10 then [digit_char n] else string_of_nat (n div 10) @ [digit_char (n mod 10)])"

definition is_digit :: "char \<Rightarrow> bool" where
  "is_digit c = (48 \<le> (of_char c :: int) \<and> (of_char c :: int) \<le> 57)"

definition int_of_digits :: "string \<Rightarrow> int" where
  "int_of_digits s = foldl (\<lambda>acc c. 10 * acc + (of_char c - 48)) 0 s"

definition array_index :: "string \<Rightarrow> int option" where
  "array_index s =
     (if s \<noteq> [] \<and> list_all is_digit s \<and> (length s = 1 \<or> hd s \<noteq> CHR ''0'')
         \<and> int_of_digits s < 2 ^ 32 - 1
      then Some (int_of_digits s) else None)"

definition own_property_order :: "(string \<times> jsval) list \<Rightarrow> (string \<times> jsval) list" where
  "own_property_order ps =
     sort_key (\<lambda>p. the (array_index (fst p))) [p \<leftarrow> ps. array_index (fst p) \<noteq> None]
     @ [p \<leftarrow> ps. array_index (fst p) = None]"

fun Object_entries :: "jsval \<Rightarrow> js_error + (string \<times> jsval) list" where
  "Object_entries JUndefined = Inl (Error ''Cannot convert undefined or null to object'')"
| "Object_entries JNull = Inl (Error ''Cannot convert undefined or null to object'')"
| "Object_entries (JObj ps) = Inr (own_property_order ps)"
| "Object_entries (JArr xs) = Inr (map (\<lambda>i. (string_of_nat i, xs ! i)) [0..<length xs])"
| "Object_entries (JStr s) = Inr (map (\<lambda>i. (string_of_nat i, JStr [s ! i])) [0..<length s])"
| "Object_entries v = Inr []"

declare string_of_nat.simps [simp del]

section \<open>The program state\<close>

text \<open>
  The lines the program prints, one constructor for each \<^verbatim>\<open>console.log\<close> and
  \<^verbatim>\<open>console.error\<close> of the source, holding the values interpolated into the line:
  \<open>DependencyLoadError packageName message\<close> is line 37, \<open>DotSaved\<close> line 60,
  \<open>SvgCommandError\<close> line 69, \<open>SvgStderr\<close> line 73, \<open>SvgSaved\<close> line 76,
  \<open>PngCommandError\<close> line 84, \<open>PngStderr\<close> line 88, \<open>PngSaved\<close> line 91 and
  \<open>ImageGenerationError\<close> line 95.
\<close>

datatype message =
    DependencyLoadError string string
  | DotSaved string
  | SvgCommandError string
  | SvgStderr string
  | SvgSaved string
  | PngCommandError string
  | PngStderr string
  | PngSaved string
  | ImageGenerationError string

text \<open>
  The events of a run: a call of \<^verbatim>\<open>axios.get\<close> with its URL, a call of
  \<^verbatim>\<open>fs.writeFileSync\<close> with its path, content and encoding, a call of \<^verbatim>\<open>exec\<close>
  with its command line, the console lines, and an exception that reaches no handler of the
  program (the engine reports it and ends the process).
\<close>

datatype event =
    HttpGet string
  | WriteFile string string string
  | Exec string
  | ConsoleLog message
  | ConsoleError message
  | Uncaught js_error

record 'w state =
  world :: 'w
  trace :: "event list"

definition emit :: "event \<Rightarrow> 'w state \<Rightarrow> 'w state" where
  "emit e s = s\<lparr>trace := trace s @ [e]\<rparr>"

text \<open>
  \<^verbatim>\<open>await axios.get(url)\<close>: the registry answers in the current world with a rejection
  (\<open>Inl\<close>) or with the value the promise resolves to (\<open>Inr\<close>), and moves to the next world.
\<close>

type_synonym 'w axios = "string \<Rightarrow> 'w \<Rightarrow> (js_error + jsval) \<times> 'w"

definition axios_get :: "'w axios \<Rightarrow> string \<Rightarrow> 'w state \<Rightarrow> (js_error + jsval) \<times> 'w state" where
  "axios_get ax url s =
     (case ax url (world s) of (r, w') \<Rightarrow> (r, emit (HttpGet url) (s\<lparr>world := w'\<rparr>)))"

section \<open>The dependency resolver\<close>

datatype DependencyNode = DependencyNode (name: string) (dependencies: "DependencyNode list")

text \<open>
  Line 28, \<^verbatim>\<open>response.data.dependencies || {}\<close>, and the names line 31 iterates over,
  \<^verbatim>\<open>for (const [name] of Object.entries(dependencies))\<close>.
\<close>

definition response_dependencies :: "jsval \<Rightarrow> js_error + jsval" where
  "response_dependencies response =
     (case get_prop response ''data'' of
        Inl e \<Rightarrow> Inl e
      | Inr data \<Rightarrow>
          (case get_prop data ''dependencies'' of
             Inl e \<Rightarrow> Inl e
           | Inr d \<Rightarrow> Inr (js_or d (JObj []))))"

definition entry_names :: "jsval \<Rightarrow> js_error + string list" where
  "entry_names deps =
     (case Object_entries deps of Inl e \<Rightarrow> Inl e | Inr es \<Rightarrow> Inr (map fst es))"

text \<open>The handler of lines 36 to 39: it prints the error and returns the empty array.\<close>

definition catch_error ::
  "string \<Rightarrow> js_error \<Rightarrow> 'w state \<Rightarrow> (js_error + DependencyNode list) \<times> 'w state" where
  "catch_error packageName error s =
     (Inr [], emit (ConsoleError (DependencyLoadError packageName (message error))) s)"

text \<open>
  \<open>getDependencies\<close> is lines 23 to 40 and \<open>for_entries\<close> the loop of lines 31 to 34 with
  its accumulator \<^verbatim>\<open>result\<close>. Both return \<open>Inl\<close> where the source would throw, so
  that a rejection of a recursive call reaches the handler of the caller as it would in the
  source. The depths are integers, as the data model of the specification has them: the
  source counts up from 1 in steps of 1, exactly representable far beyond any depth a run
  can reach. The recursion ends because \<open>maxDepth + 1 - depth\<close> decreases with every
  nested call.
\<close>

function getDependencies ::
    "'w axios \<Rightarrow> string \<Rightarrow> int \<Rightarrow> int \<Rightarrow> string \<Rightarrow> 'w state
      \<Rightarrow> (js_error + DependencyNode list) \<times> 'w state"
  and for_entries ::
    "'w axios \<Rightarrow> string list \<Rightarrow> int \<Rightarrow> int \<Rightarrow> string \<Rightarrow> DependencyNode list
      \<Rightarrow> 'w state \<Rightarrow> (js_error + DependencyNode list) \<times> 'w state"
where
  "getDependencies ax packageName depth maxDepth repositoryUrl s =
     (if depth > maxDepth then (Inr [], s)
      else
        (case axios_get ax (repositoryUrl @ ''/'' @ packageName @ ''/latest'') s of
           (Inl e, s1) \<Rightarrow> catch_error packageName e s1
         | (Inr response, s1) \<Rightarrow>
             (case response_dependencies response of
                Inl e \<Rightarrow> catch_error packageName e s1
              | Inr deps \<Rightarrow>
                  (case entry_names deps of
                     Inl e \<Rightarrow> catch_error packageName e s1
                   | Inr names \<Rightarrow>
                       (case for_entries ax names depth maxDepth repositoryUrl [] s1 of
                          (Inl e, s2) \<Rightarrow> catch_error packageName e s2
                        | (Inr result, s2) \<Rightarrow> (Inr result, s2))))))"
| "for_entries ax [] depth maxDepth repositoryUrl result s = (Inr result, s)"
| "for_entries ax (nm # names) depth maxDepth repositoryUrl result s =
     (case getDependencies ax nm (depth + 1) maxDepth repositoryUrl s of
        (Inl e, s1) \<Rightarrow> (Inl e, s1)
      | (Inr subDeps, s1) \<Rightarrow>
          for_entries ax names depth maxDepth repositoryUrl
            (result @ [DependencyNode nm subDeps]) s1)"
  by pat_completeness auto
termination
  by (relation "inv_image (less_than <*lex*> less_than)
        (\<lambda>x. case x of
           Inl (ax, p, d, m, u, s) \<Rightarrow> (2 * nat (m + 1 - d), 0)
         | Inr (ax, ns, d, m, u, r, s) \<Rightarrow> (2 * nat (m - d) + 1, length ns))")
     auto

declare getDependencies.simps [simp del]

section \<open>The graph serializer\<close>

text \<open>
  Lines 42 to 53. The closure variable \<^verbatim>\<open>graph\<close> is passed through the calls of
  \<open>addDependencies\<close>, and each \<^verbatim>\<open>forEach\<close> is a \<open>fold\<close> over the array.
\<close>

definition newline :: string where
  "newline = [CHR 0x0A]"

definition dquote :: string where
  "dquote = [CHR 0x22]"

fun addDependencies :: "DependencyNode \<Rightarrow> string \<Rightarrow> string \<Rightarrow> string" where
  "addDependencies (DependencyNode n ds) parent graph =
     fold (\<lambda>subDep g. addDependencies subDep n g) ds
       (graph @ ''  '' @ dquote @ parent @ dquote @ '' -> '' @ dquote @ n @ dquote @ '';'' @ newline)"

definition generateDotGraph :: "DependencyNode list \<Rightarrow> string \<Rightarrow> string" where
  "generateDotGraph deps packageName =
     fold (\<lambda>dep g. addDependencies dep packageName g) deps
       (''digraph '' @ packageName @ '' {'' @ newline)
     @ ''}'' @ newline"

section \<open>The render pipeline\<close>

text \<open>
  \<^verbatim>\<open>fs.writeFileSync\<close> either throws (\<open>Some\<close>) or returns. The shell answers a call of
  \<^verbatim>\<open>exec\<close> in one of two ways. Either \<^verbatim>\<open>exec\<close> throws at once (\<open>Inl\<close>): it refuses the
  command, as it does for a command line that holds a NUL character, or the process cannot
  be spawned; then no callback ever runs. Or the command runs and the callback later
  receives its outcome (\<open>Inr\<close>): the error (\<^verbatim>\<open>null\<close> is \<open>None\<close>) and the two output
  strings.

  \<open>exec\<close> records the call and returns the exception, if any, to its caller. Otherwise it
  runs the callback on the outcome. The callback runs from the event loop, after the caller
  of \<^verbatim>\<open>exec\<close> has returned, so an exception that the callback throws reaches no handler
  of the program: it is recorded as \<open>Uncaught\<close> and \<open>exec\<close> has returned normally.
\<close>

record exec_result =
  exec_error :: "js_error option"
  stdout :: string
  stderr :: string

type_synonym 'w fs = "string \<Rightarrow> string \<Rightarrow> string \<Rightarrow> 'w \<Rightarrow> js_error option \<times> 'w"

type_synonym 'w shell = "string \<Rightarrow> 'w \<Rightarrow> (js_error + exec_result) \<times> 'w"

type_synonym 'w callback =
  "js_error option \<Rightarrow> string \<Rightarrow> string \<Rightarrow> 'w state \<Rightarrow> js_error option \<times> 'w state"

definition writeFileSync ::
  "'w fs \<Rightarrow> string \<Rightarrow> string \<Rightarrow> string \<Rightarrow> 'w state \<Rightarrow> js_error option \<times> 'w state" where
  "writeFileSync fs path content encoding s =
     (case fs path content encoding (world s) of
        (r, w') \<Rightarrow> (r, emit (WriteFile path content encoding) (s\<lparr>world := w'\<rparr>)))"

definition exec ::
  "'w shell \<Rightarrow> string \<Rightarrow> 'w callback \<Rightarrow> 'w state \<Rightarrow> js_error option \<times> 'w state" where
  "exec sh command callback s =
     (case sh command (world s) of
        (Inl e, w') \<Rightarrow> (Some e, emit (Exec command) (s\<lparr>world := w'\<rparr>))
      | (Inr r, w') \<Rightarrow>
          (case callback (exec_error r) (stdout r) (stderr r)
                  (emit (Exec command) (s\<lparr>world := w'\<rparr>)) of
             (Some e, s') \<Rightarrow> (None, emit (Uncaught e) s')
           | (None, s') \<Rightarrow> (None, s')))"

text \<open>
  The callbacks of lines 82 to 92 and 67 to 93. Each returns the exception it throws, if
  any: the first throws nothing, the second throws what the nested call of \<^verbatim>\<open>exec\<close> at
  line 82 throws.
\<close>

definition pngCallback :: "string \<Rightarrow> 'w callback" where
  "pngCallback pngFilePath error out err s =
     (case error of
        Some e \<Rightarrow> (None, emit (ConsoleError (PngCommandError (message e))) s)
      | None \<Rightarrow>
          if err \<noteq> [] then (None, emit (ConsoleError (PngStderr err)) s)
          else (None, emit (ConsoleLog (PngSaved pngFilePath)) s))"

definition svgCallback :: "'w shell \<Rightarrow> string \<Rightarrow> string \<Rightarrow> 'w callback" where
  "svgCallback sh outputFilePath svgFilePath error out err s =
     (case error of
        Some e \<Rightarrow> (None, emit (ConsoleError (SvgCommandError (message e))) s)
      | None \<Rightarrow>
          if err \<noteq> [] then (None, emit (ConsoleError (SvgStderr err)) s)
          else
            (let s1 = emit (ConsoleLog (SvgSaved svgFilePath)) s;
                 pngFilePath = outputFilePath @ ''.png'';
                 pngCommand = ''magick '' @ svgFilePath @ '' '' @ pngFilePath
             in exec sh pngCommand (pngCallback pngFilePath) s1))"

text \<open>
  \<open>generateImageFromDot_try\<close> is the guarded block of lines 57 to 93: it returns the
  exception that leaves the block, thrown by \<^verbatim>\<open>fs.writeFileSync\<close> at line 59 or by
  \<^verbatim>\<open>exec\<close> at line 67. \<open>generateImageFromDot\<close> is the function of lines 55 to 97 with
  the handler of lines 94 to 96. The parameter \<^verbatim>\<open>visualizerPath\<close> defaults to
  \<^verbatim>\<open>dot\<close> when the caller passes \<^verbatim>\<open>undefined\<close> (\<open>None\<close>). The result \<open>Inr ()\<close> is the
  promise fulfilled, \<open>Inl\<close> a rejection; the state returned is the one after the callbacks
  have run.
\<close>

definition generateImageFromDot_try ::
  "'w fs \<Rightarrow> 'w shell \<Rightarrow> string \<Rightarrow> string \<Rightarrow> string \<Rightarrow> 'w state \<Rightarrow> js_error option \<times> 'w state" where
  "generateImageFromDot_try fs sh dotString outputFilePath visualizerPath s =
     (let dotFilePath = outputFilePath @ ''.dot''
      in case writeFileSync fs dotFilePath dotString ''utf8'' s of
           (Some e, s1) \<Rightarrow> (Some e, s1)
         | (None, s1) \<Rightarrow>
             (let s2 = emit (ConsoleLog (DotSaved dotFilePath)) s1;
                  svgFilePath = outputFilePath @ ''.svg'';
                  svgCommand = visualizerPath @ '' -Tsvg '' @ dotFilePath @ '' -o '' @ svgFilePath
              in exec sh svgCommand (svgCallback sh outputFilePath svgFilePath) s2))"

definition generateImageFromDot ::
  "'w fs \<Rightarrow> 'w shell \<Rightarrow> string \<Rightarrow> string \<Rightarrow> string option \<Rightarrow> 'w state
     \<Rightarrow> (js_error + unit) \<times> 'w state" where
  "generateImageFromDot fs sh dotString outputFilePath visualizerPathArg s =
     (let visualizerPath = (case visualizerPathArg of None \<Rightarrow> ''dot'' | Some v \<Rightarrow> v)
      in case generateImageFromDot_try fs sh dotString outputFilePath visualizerPath s of
           (Some error, s1) \<Rightarrow>
             (Inr (), emit (ConsoleError (ImageGenerationError (message error))) s1)
         | (None, s1) \<Rightarrow> (Inr (), s1))"

section \<open>The graph serializer over a store of objects\<close>

text \<open>
  JavaScript passes the forest by reference: the argument is an array object whose elements
  are node objects, each holding a name and a reference to the array of its dependencies.
  To state what a call does to its input, lines 42 to 53 are embedded a second time over a
  store that maps references to objects. The state of a call is the store and the closure
  variable \<^verbatim>\<open>graph\<close>. The first argument bounds the nesting of calls, as the call stack
  of the engine does: a forest that is too deep (or a store with a cycle) ends in the
  \<^verbatim>\<open>RangeError\<close> of the engine. A reference the store does not hold stands for
  \<^verbatim>\<open>undefined\<close>; reading \<^verbatim>\<open>name\<close> or \<^verbatim>\<open>forEach\<close> from it, or calling
  \<^verbatim>\<open>forEach\<close> on an object that is not an array, ends in a \<^verbatim>\<open>TypeError\<close>.
\<close>

type_synonym ref = nat

datatype heap_obj = NodeObj string ref | ArrayObj "ref list"

type_synonym heap = "ref \<Rightarrow> heap_obj option"

record serializer_state =
  heap :: heap
  graph :: string

definition undefined_read :: "string \<Rightarrow> js_error" where
  "undefined_read p =
     Error (''Cannot read properties of undefined (reading '' @ quote_char @ p @ quote_char @ '')'')"

fun addDependencies_h :: "nat \<Rightarrow> ref \<Rightarrow> string \<Rightarrow> serializer_state \<Rightarrow> js_error + serializer_state"
  and forEach_h :: "nat \<Rightarrow> ref list \<Rightarrow> string \<Rightarrow> serializer_state \<Rightarrow> js_error + serializer_state"
where
  "addDependencies_h 0 dep parent st = Inl (Error ''Maximum call stack size exceeded'')"
| "addDependencies_h (Suc k) dep parent st =
     (case heap st dep of
        None \<Rightarrow> Inl (undefined_read ''name'')
      | Some (ArrayObj elems) \<Rightarrow> Inl (undefined_read ''forEach'')
      | Some (NodeObj n arr) \<Rightarrow>
          (let st1 = st\<lparr>graph := graph st @ ''  '' @ dquote @ parent @ dquote @ '' -> ''
                          @ dquote @ n @ dquote @ '';'' @ newline\<rparr>
           in case heap st1 arr of
                None \<Rightarrow> Inl (undefined_read ''forEach'')
              | Some (NodeObj n' arr') \<Rightarrow> Inl (Error ''dep.dependencies.forEach is not a function'')
              | Some (ArrayObj elems) \<Rightarrow> forEach_h k elems n st1))"
| "forEach_h k [] parent st = Inr st"
| "forEach_h k (r # rs) parent st =
     (case addDependencies_h k r parent st of
        Inl e \<Rightarrow> Inl e
      | Inr st1 \<Rightarrow> forEach_h k rs parent st1)"

definition generateDotGraph_h :: "nat \<Rightarrow> ref \<Rightarrow> string \<Rightarrow> heap \<Rightarrow> js_error + string \<times> heap" where
  "generateDotGraph_h limit deps packageName h =
     (case h deps of
        None \<Rightarrow> Inl (undefined_read ''forEach'')
      | Some (NodeObj n arr) \<Rightarrow> Inl (Error ''dependencies.forEach is not a function'')
      | Some (ArrayObj elems) \<Rightarrow>
          (case forEach_h limit elems packageName
                  \<lparr>heap = h, graph = ''digraph '' @ packageName @ '' {'' @ newline\<rparr> of
             Inl e \<Rightarrow> Inl e
           | Inr st \<Rightarrow> Inr (graph st @ ''}'' @ newline, heap st)))"

section \<open>Vocabulary of the specification\<close>

text \<open>
  The edges of a forest in pre-order: the edge from the parent to a node, then the edges
  below the node in stored order, then the next sibling. \<open>edge_line\<close> is the text of one
  edge.
\<close>

fun node_edges :: "string \<Rightarrow> DependencyNode \<Rightarrow> (string \<times> string) list" where
  "node_edges parent (DependencyNode n ds) = (parent, n) # concat (map (node_edges n) ds)"

definition preorder_edges :: "string \<Rightarrow> DependencyNode list \<Rightarrow> (string \<times> string) list" where
  "preorder_edges rootName forest = concat (map (node_edges rootName) forest)"

definition edge_line :: "string \<times> string \<Rightarrow> string" where
  "edge_line e =
     ''  '' @ dquote @ fst e @ dquote @ '' -> '' @ dquote @ snd e @ dquote @ '';'' @ newline"

text \<open>
  The command lines a trace passed to \<^verbatim>\<open>exec\<close>, the URLs it requested, the lines it
  printed with \<^verbatim>\<open>console.error\<close>, and the exceptions that reached no handler, each in
  order.
\<close>

fun commands :: "event list \<Rightarrow> string list" where
  "commands [] = []"
| "commands (Exec c # es) = c # commands es"
| "commands (e # es) = commands es"

fun requests :: "event list \<Rightarrow> string list" where
  "requests [] = []"
| "requests (HttpGet u # es) = u # requests es"
| "requests (e # es) = requests es"

fun reports :: "event list \<Rightarrow> message list" where
  "reports [] = []"
| "reports (ConsoleError m # es) = m # reports es"
| "reports (e # es) = reports es"


text \<open>
  Depth in a forest. The depth of a node is the depth of the call that created it: the
  nodes a call returns are at depth 1 of its result, their dependencies at depth 2, and so
  on. \<open>nodes_at k forest\<close> lists the nodes at depth \<open>k\<close>, and \<open>fits k node\<close> says that
  \<open>node\<close> and everything below it takes at most \<open>k\<close> levels.
\<close>

fun nodes_at :: "nat \<Rightarrow> DependencyNode list \<Rightarrow> DependencyNode list" where
  "nodes_at 0 forest = []"
| "nodes_at (Suc 0) forest = forest"
| "nodes_at (Suc (Suc k)) forest = nodes_at (Suc k) (concat (map dependencies forest))"

fun fits :: "nat \<Rightarrow> DependencyNode \<Rightarrow> bool" where
  "fits 0 node = False"
| "fits (Suc k) (DependencyNode n ds) = (\<forall>d \<in> set ds. fits k d)"

text \<open>
  The requests that resolving a node takes when \<open>k\<close> levels of depth are left: none when
  \<open>k\<close> is 0, and otherwise one for the node's own package followed by the requests of its
  dependencies, in order, with one level less.
\<close>

fun node_requests :: "string \<Rightarrow> nat \<Rightarrow> DependencyNode \<Rightarrow> string list" where
  "node_requests url 0 node = []"
| "node_requests url (Suc k) (DependencyNode n ds) =
     (url @ ''/'' @ n @ ''/latest'') # concat (map (node_requests url k) ds)"

text \<open>
  The nodes of a forest were resolved in turn from a state \<open>s\<close> to a state \<open>s'\<close> when
  the first node holds exactly what the recursive call for its name returned from \<open>s\<close>,
  the second what the call for its name returned from the state the first call left, and
  so on, \<open>s'\<close> being the state the last call left.
\<close>

fun resolved_in_turn ::
  "'w axios \<Rightarrow> int \<Rightarrow> int \<Rightarrow> string \<Rightarrow> 'w state \<Rightarrow> DependencyNode list \<Rightarrow> 'w state \<Rightarrow> bool" where
  "resolved_in_turn ax depth maxDepth url s [] s' = (s' = s)"
| "resolved_in_turn ax depth maxDepth url s (node # nodes) s' =
     (case getDependencies ax (name node) (depth + 1) maxDepth url s of
        (r, s1) \<Rightarrow>
          r = Inr (dependencies node) \<and> resolved_in_turn ax depth maxDepth url s1 nodes s')"

text \<open>
  A store represents a forest at a reference when the reference holds an array whose
  elements hold, in order, node objects of the same names whose dependencies are
  represented in the same way.
\<close>

fun repr_node :: "heap \<Rightarrow> ref \<Rightarrow> DependencyNode \<Rightarrow> bool" where
  "repr_node h r (DependencyNode n ds) =
     (case h r of
        Some (NodeObj n' arr) \<Rightarrow>
          n' = n \<and>
          (case h arr of
             Some (ArrayObj elems) \<Rightarrow> list_all2 (repr_node h) elems ds
           | _ \<Rightarrow> False)
      | _ \<Rightarrow> False)"

definition repr_forest :: "heap \<Rightarrow> ref \<Rightarrow> DependencyNode list \<Rightarrow> bool" where
  "repr_forest h arr forest =
     (case h arr of
        Some (ArrayObj elems) \<Rightarrow> list_all2 (repr_node h) elems forest
      | _ \<Rightarrow> False)"

section \<open>Example environments\<close>

text \<open>
  A file system that accepts every write and one that refuses every write; a shell whose
  commands succeed silently, one whose commands fail, and one whose commands succeed with
  a warning on stderr.
\<close>

definition fs_ok :: "unit fs" where
  "fs_ok path content encoding w = (None, w)"

definition fs_failing :: "unit fs" where
  "fs_failing path content encoding w = (Some (Error ''EACCES: permission denied''), w)"

definition sh_ok :: "unit shell" where
  "sh_ok command w = (Inr \<lparr>exec_error = None, stdout = [], stderr = []\<rparr>, w)"

definition sh_failing :: "unit shell" where
  "sh_failing command w =
     (Inr \<lparr>exec_error = Some (Error ''Command failed''), stdout = [], stderr = []\<rparr>, w)"

definition sh_warning :: "unit shell" where
  "sh_warning command w =
     (Inr \<lparr>exec_error = None, stdout = [], stderr = ''Warning: syntax ambiguity''\<rparr>, w)"

text \<open>
  A shell that refuses a command line holding a NUL character, as \<^verbatim>\<open>exec\<close> does, and
  runs every other command with success; and a shell that runs the visualizer but cannot
  spawn \<^verbatim>\<open>magick\<close>.
\<close>

definition sh_strict :: "unit shell" where
  "sh_strict command w =
     (if CHR 0x00 \<in> set command
      then Inl (Error ''The argument command must be a string without null bytes'')
      else Inr \<lparr>exec_error = None, stdout = [], stderr = []\<rparr>, w)"


text \<open>
  A response whose body declares the dependencies \<open>d\<close>; a registry that answers every
  request with the same response; and a registry that answers from a queue of prepared
  outcomes and resolves to \<^verbatim>\<open>undefined\<close> once the queue is empty, as the mock of the
  repository's test suite does.
\<close>

definition response_with :: "jsval \<Rightarrow> jsval" where
  "response_with d =
     JObj [(''status'', JNum (Finite 200)),
           (''data'', JObj [(''name'', JStr ''pkg''), (''dependencies'', d)])]"

definition constant_registry :: "jsval \<Rightarrow> unit axios" where
  "constant_registry r url w = (Inr r, w)"

definition queue_registry :: "(js_error + jsval) list axios" where
  "queue_registry url w = (case w of [] \<Rightarrow> (Inr JUndefined, []) | r # rs \<Rightarrow> (r, rs))"

text \<open>
  A store holding the forest \<^verbatim>\<open>[{dep1, [{x, []}]}, {dep2, []}]\<close> at reference 0; the
  nodes \<^verbatim>\<open>x\<close> and \<^verbatim>\<open>dep2\<close> share one empty array.
\<close>

definition example_heap :: heap where
  "example_heap =
     map_of
       [(0, ArrayObj [1, 3]),
        (1, NodeObj ''dep1'' 2),
        (2, ArrayObj [5]),
        (3, NodeObj ''dep2'' 4),
        (4, ArrayObj []),
        (5, NodeObj ''x'' 4)]"

section \<open>Evaluation rules\<close>

lemmas run_simps =
  getDependencies.simps axios_get_def emit_def response_dependencies_def js_or_def
  entry_names_def own_property_order_def array_index_def is_digit_def catch_error_def

lemmas env_simps = constant_registry_def queue_registry_def response_with_def

section \<open>The graph serializer writes the edges in pre-order\<close>

lemma edge_line_pair:
  "edge_line (p, c) = ''  '' @ dquote @ p @ dquote @ '' -> '' @ dquote @ c @ dquote @ '';'' @ newline"
  by (simp add: edge_line_def)

lemma fold_addDependencies:
  assumes "\<And>d g. d \<in> set ds \<Longrightarrow> addDependencies d p g = g @ concat (map edge_line (node_edges p d))"
  shows "fold (\<lambda>d g. addDependencies d p g) ds g =
           g @ concat (map edge_line (concat (map (node_edges p) ds)))"
  using assms by (induction ds arbitrary: g) simp_all

lemma addDependencies_edges:
  "addDependencies dep parent g = g @ concat (map edge_line (node_edges parent dep))"
proof (induction dep parent g rule: addDependencies.induct)
  case (1 n ds parent graph)
  have "fold (\<lambda>d g. addDependencies d n g) ds g' =
          g' @ concat (map edge_line (concat (map (node_edges n) ds)))" for g'
    by (rule fold_addDependencies) (rule "1.IH")
  then show ?case by (simp add: edge_line_pair)
qed

text \<open>
  C3. For every forest and every root name, \<open>generateDotGraph\<close> returns exactly the header
  line \<^verbatim>\<open>digraph <root> {\<close>, then one line \<^verbatim>\<open>  "<parent>" -> "<child>";\<close> for each edge of
  the forest in pre-order (the edge from the root name to a root-level node, then all the
  edges below that node in stored order, before the edge of the next sibling), then the
  closing line \<^verbatim>\<open>}\<close>. The names are written as they are, unescaped.
\<close>

theorem generateDotGraph_preorder:
  "generateDotGraph deps rootName =
     ''digraph '' @ rootName @ '' {'' @ newline
     @ concat (map edge_line (preorder_edges rootName deps))
     @ ''}'' @ newline"
  unfolding generateDotGraph_def preorder_edges_def
  by (simp add: fold_addDependencies [OF addDependencies_edges])

theorem generateDotGraph_preorder_witness:
  "generateDotGraph
     [DependencyNode ''dep1'' [DependencyNode ''x'' []], DependencyNode ''dep2'' []]
     ''example-package'' =
     ''digraph example-package {'' @ newline
     @ ''  '' @ dquote @ ''example-package'' @ dquote @ '' -> '' @ dquote @ ''dep1'' @ dquote @ '';'' @ newline
     @ ''  '' @ dquote @ ''dep1'' @ dquote @ '' -> '' @ dquote @ ''x'' @ dquote @ '';'' @ newline
     @ ''  '' @ dquote @ ''example-package'' @ dquote @ '' -> '' @ dquote @ ''dep2'' @ dquote @ '';'' @ newline
     @ ''}'' @ newline"
  using generateDotGraph_preorder
    [of "[DependencyNode ''dep1'' [DependencyNode ''x'' []], DependencyNode ''dep2'' []]"
        "''example-package''"]
  by (simp add: preorder_edges_def edge_line_pair)

section \<open>The graph serializer reads its input and nothing else\<close>

lemma forEach_h_fold:
  assumes "list_all2 (\<lambda>r d. \<forall>st. heap st = h \<longrightarrow>
              addDependencies_h k r p st = Inr (st\<lparr>graph := addDependencies d p (graph st)\<rparr>)) rs ds"
    and "heap st = h"
  shows "forEach_h k rs p st = Inr (st\<lparr>graph := fold (\<lambda>d g. addDependencies d p g) ds (graph st)\<rparr>)"
  using assms
proof (induction rs ds arbitrary: st rule: list_all2_induct)
  case Nil
  then show ?case by simp
next
  case (Cons r rs d ds)
  then show ?case by simp
qed

lemma repr_nodeD:
  assumes "repr_node h r (DependencyNode n ds)"
  shows "\<exists>arr elems. h r = Some (NodeObj n arr) \<and> h arr = Some (ArrayObj elems)
           \<and> list_all2 (repr_node h) elems ds"
proof (cases "h r")
  case None
  then show ?thesis using assms by simp
next
  case (Some obj)
  show ?thesis
  proof (cases obj)
    case (NodeObj n' arr)
    show ?thesis
    proof (cases "h arr")
      case None
      then show ?thesis using assms Some NodeObj by simp
    next
      case inner: (Some obj')
      then show ?thesis using assms Some NodeObj by (cases obj') simp_all
    qed
  next
    case (ArrayObj elems)
    then show ?thesis using assms Some by simp
  qed
qed

lemma repr_forestD:
  assumes "repr_forest h arr forest"
  shows "\<exists>elems. h arr = Some (ArrayObj elems) \<and> list_all2 (repr_node h) elems forest"
proof (cases "h arr")
  case None
  then show ?thesis using assms by (simp add: repr_forest_def)
next
  case (Some obj)
  then show ?thesis using assms by (cases obj) (simp_all add: repr_forest_def)
qed

lemma addDependencies_h_correct:
  "repr_node h r node \<Longrightarrow> fits k node \<Longrightarrow> heap st = h \<Longrightarrow>
     addDependencies_h k r parent st = Inr (st\<lparr>graph := addDependencies node parent (graph st)\<rparr>)"
proof (induction k node arbitrary: r st parent rule: fits.induct)
  case (1 node)
  then show ?case by simp
next
  case (2 k n ds)
  from repr_nodeD [OF "2.prems"(1)] obtain arr elems where r: "h r = Some (NodeObj n arr)"
    and a: "h arr = Some (ArrayObj elems)" and all: "list_all2 (repr_node h) elems ds"
    by blast
  have "list_all2 (\<lambda>r d. \<forall>st. heap st = h \<longrightarrow>
          addDependencies_h k r n st = Inr (st\<lparr>graph := addDependencies d n (graph st)\<rparr>)) elems ds"
    using all "2.prems"(2) "2.IH"
    by (auto simp add: list_all2_conv_all_nth)
  then have "forEach_h k elems n st' =
      Inr (st'\<lparr>graph := fold (\<lambda>d g. addDependencies d n g) ds (graph st')\<rparr>)" if "heap st' = h" for st'
    using that by (rule forEach_h_fold)
  then show ?case using r a "2.prems"(3) by (simp add: Let_def)
qed

text \<open>
  C8. \<open>generateDotGraph\<close> is a pure, deterministic function of its forest and root name.
  On every store that represents the forest at the argument, and with room on the stack
  for the depth of the forest, the call returns the string that the forest and the root
  name alone determine (whatever the references, the sharing and the rest of the store)
  and leaves the store as it was; a second call on the store the first one left returns
  the same string and again leaves the store unchanged.
\<close>

theorem generateDotGraph_pure:
  assumes "repr_forest h arr forest" and "\<forall>node \<in> set forest. fits limit node"
  shows "generateDotGraph_h limit arr rootName h = Inr (generateDotGraph forest rootName, h)
       \<and> (case generateDotGraph_h limit arr rootName h of
            Inl e \<Rightarrow> False
          | Inr (text1, h1) \<Rightarrow> generateDotGraph_h limit arr rootName h1 = Inr (text1, h1))"
proof -
  from repr_forestD [OF assms(1)] obtain elems where a: "h arr = Some (ArrayObj elems)"
    and all: "list_all2 (repr_node h) elems forest"
    by blast
  have "list_all2 (\<lambda>r d. \<forall>st. heap st = h \<longrightarrow>
          addDependencies_h limit r rootName st =
            Inr (st\<lparr>graph := addDependencies d rootName (graph st)\<rparr>)) elems forest"
    using all assms(2) addDependencies_h_correct
    by (auto simp add: list_all2_conv_all_nth)
  then have "forEach_h limit elems rootName \<lparr>heap = h, graph = g\<rparr> =
      Inr (\<lparr>heap = h, graph = fold (\<lambda>d g. addDependencies d rootName g) forest g\<rparr>)" for g
    using forEach_h_fold [where st = "\<lparr>heap = h, graph = g\<rparr>"] by fastforce
  then have "generateDotGraph_h limit arr rootName h = Inr (generateDotGraph forest rootName, h)"
    using a by (simp add: generateDotGraph_h_def generateDotGraph_def)
  then show ?thesis by simp
qed

theorem generateDotGraph_pure_witness:
  "repr_forest example_heap 0
     [DependencyNode ''dep1'' [DependencyNode ''x'' []], DependencyNode ''dep2'' []]
   \<and> list_all (fits 2)
     [DependencyNode ''dep1'' [DependencyNode ''x'' []], DependencyNode ''dep2'' []]
   \<and> generateDotGraph_h 2 0 ''example-package'' example_heap =
       Inr (''digraph example-package {'' @ newline
            @ ''  '' @ dquote @ ''example-package'' @ dquote @ '' -> '' @ dquote @ ''dep1'' @ dquote @ '';'' @ newline
            @ ''  '' @ dquote @ ''dep1'' @ dquote @ '' -> '' @ dquote @ ''x'' @ dquote @ '';'' @ newline
            @ ''  '' @ dquote @ ''example-package'' @ dquote @ '' -> '' @ dquote @ ''dep2'' @ dquote @ '';'' @ newline
            @ ''}'' @ newline,
            example_heap)"
proof -
  let ?F = "[DependencyNode ''dep1'' [DependencyNode ''x'' []], DependencyNode ''dep2'' []]"
  have r: "repr_forest example_heap 0 ?F"
    by (simp add: repr_forest_def example_heap_def)
  have f: "\<forall>node \<in> set ?F. fits 2 node"
    by (simp add: numeral_2_eq_2)
  have t: "generateDotGraph ?F ''example-package'' =
       ''digraph example-package {'' @ newline
       @ ''  '' @ dquote @ ''example-package'' @ dquote @ '' -> '' @ dquote @ ''dep1'' @ dquote @ '';'' @ newline
       @ ''  '' @ dquote @ ''dep1'' @ dquote @ '' -> '' @ dquote @ ''x'' @ dquote @ '';'' @ newline
       @ ''  '' @ dquote @ ''example-package'' @ dquote @ '' -> '' @ dquote @ ''dep2'' @ dquote @ '';'' @ newline
       @ ''}'' @ newline"
    by (simp add: generateDotGraph_def)
  from generateDotGraph_pure [OF r f, of "''example-package''"]
  have "generateDotGraph_h 2 0 ''example-package'' example_heap =
      Inr (generateDotGraph ?F ''example-package'', example_heap)"
    by (rule conjunct1)
  then show ?thesis using r f t by (simp add: list_all_iff)
qed

section \<open>The render pipeline\<close>

lemma commands_append: "commands (xs @ ys) = commands xs @ commands ys"
  by (induction xs rule: commands.induct) simp_all



lemmas pipeline_defs =
  generateImageFromDot_def generateImageFromDot_try_def Let_def writeFileSync_def exec_def
  svgCallback_def pngCallback_def emit_def

text \<open>
  C5. For every graph text, base name and visualizer command, the first effect of
  \<open>generateImageFromDot\<close> is the write of the graph text, as it is, to \<^verbatim>\<open><base>.dot\<close>. When
  the write fails, the error is printed and \<^verbatim>\<open>exec\<close> is not called. Otherwise
  \<^verbatim>\<open>exec\<close> is called with exactly the command
  \<^verbatim>\<open><visualizer> -Tsvg <base>.dot -o <base>.svg\<close>. When \<^verbatim>\<open>exec\<close> throws on it, the
  handler prints the error and nothing further happens. When the command runs and
  succeeds, \<^verbatim>\<open>exec\<close> is called exactly once more, with \<^verbatim>\<open>magick <base>.svg <base>.png\<close>,
  and the outcome of that command is printed (or, when this second call throws, the
  exception reaches no handler). When the command runs and fails, its failure is printed
  and nothing further happens.
\<close>

theorem generateImageFromDot_steps:
  assumes wr: "fs (base @ ''.dot'') dot ''utf8'' (world s) = (written, w1)"
    and svg: "sh (vis @ '' -Tsvg '' @ base @ ''.dot'' @ '' -o '' @ base @ ''.svg'') w1 = (x1, w2)"
    and png: "sh (''magick '' @ base @ ''.svg'' @ '' '' @ base @ ''.png'') w2 = (x2, w3)"
  shows "snd (generateImageFromDot fs sh dot base (Some vis) s) =
     (case written of
        Some e \<Rightarrow>
          \<lparr>world = w1,
           trace = trace s @
             [WriteFile (base @ ''.dot'') dot ''utf8'',
              ConsoleError (ImageGenerationError (message e))]\<rparr>
      | None \<Rightarrow>
          (case x1 of
             Inl e \<Rightarrow>
               \<lparr>world = w2,
                trace = trace s @
                  [WriteFile (base @ ''.dot'') dot ''utf8'',
                   ConsoleLog (DotSaved (base @ ''.dot'')),
                   Exec (vis @ '' -Tsvg '' @ base @ ''.dot'' @ '' -o '' @ base @ ''.svg''),
                   ConsoleError (ImageGenerationError (message e))]\<rparr>
           | Inr r1 \<Rightarrow>
               if exec_error r1 = None \<and> stderr r1 = [] then
                 \<lparr>world = w3,
                  trace = trace s @
                    [WriteFile (base @ ''.dot'') dot ''utf8'',
                     ConsoleLog (DotSaved (base @ ''.dot'')),
                     Exec (vis @ '' -Tsvg '' @ base @ ''.dot'' @ '' -o '' @ base @ ''.svg''),
                     ConsoleLog (SvgSaved (base @ ''.svg'')),
                     Exec (''magick '' @ base @ ''.svg'' @ '' '' @ base @ ''.png''),
                     (case x2 of
                        Inl e \<Rightarrow> Uncaught e
                      | Inr r2 \<Rightarrow>
                          (case exec_error r2 of
                             Some e \<Rightarrow> ConsoleError (PngCommandError (message e))
                           | None \<Rightarrow>
                               if stderr r2 \<noteq> [] then ConsoleError (PngStderr (stderr r2))
                               else ConsoleLog (PngSaved (base @ ''.png''))))]\<rparr>
               else
                 \<lparr>world = w2,
                  trace = trace s @
                    [WriteFile (base @ ''.dot'') dot ''utf8'',
                     ConsoleLog (DotSaved (base @ ''.dot'')),
                     Exec (vis @ '' -Tsvg '' @ base @ ''.dot'' @ '' -o '' @ base @ ''.svg''),
                     ConsoleError
                       (case exec_error r1 of
                          Some e \<Rightarrow> SvgCommandError (message e)
                        | None \<Rightarrow> SvgStderr (stderr r1))]\<rparr>))"
proof (cases written)
  case (Some e)
  then show ?thesis using wr by (simp add: pipeline_defs)
next
  case None
  show ?thesis
  proof (cases x1)
    case (Inl e)
    then show ?thesis using None wr svg by (simp add: pipeline_defs)
  next
    case (Inr r1)
    show ?thesis
    proof (cases "exec_error r1 = None \<and> stderr r1 = []")
      case False
      then show ?thesis using None Inr wr svg
        by (auto simp add: pipeline_defs split: option.splits)
    next
      case True
      show ?thesis
      proof (cases x2)
        case (Inl e)
        then show ?thesis using None Inr True wr svg png by (simp add: pipeline_defs)
      next
        case r2: (Inr r2)
        then show ?thesis using None Inr True wr svg png
          by (auto simp add: pipeline_defs split: option.splits)
      qed
    qed
  qed
qed

theorem generateImageFromDot_steps_witness:
  "fs_ok ''output.dot'' ''digraph example-package { }'' ''utf8'' () = (None, ())
   \<and> sh_ok ''customPathToDot -Tsvg output.dot -o output.svg'' () =
       (Inr \<lparr>exec_error = None, stdout = [], stderr = []\<rparr>, ())
   \<and> sh_ok ''magick output.svg output.png'' () =
       (Inr \<lparr>exec_error = None, stdout = [], stderr = []\<rparr>, ())
   \<and> snd (generateImageFromDot fs_ok sh_ok ''digraph example-package { }'' ''output''
         (Some ''customPathToDot'') \<lparr>world = (), trace = []\<rparr>) =
       \<lparr>world = (),
        trace =
          [WriteFile ''output.dot'' ''digraph example-package { }'' ''utf8'',
           ConsoleLog (DotSaved ''output.dot''),
           Exec ''customPathToDot -Tsvg output.dot -o output.svg'',
           ConsoleLog (SvgSaved ''output.svg''),
           Exec ''magick output.svg output.png'',
           ConsoleLog (PngSaved ''output.png'')]\<rparr>
   \<and> fs_failing ''output.dot'' ''digraph example-package { }'' ''utf8'' () =
       (Some (Error ''EACCES: permission denied''), ())
   \<and> snd (generateImageFromDot fs_failing sh_ok ''digraph example-package { }'' ''output''
         (Some ''customPathToDot'') \<lparr>world = (), trace = []\<rparr>) =
       \<lparr>world = (),
        trace =
          [WriteFile ''output.dot'' ''digraph example-package { }'' ''utf8'',
           ConsoleError (ImageGenerationError ''EACCES: permission denied'')]\<rparr>
   \<and> sh_strict ((''dot'' @ [CHR 0x00]) @ '' -Tsvg output.dot -o output.svg'') () =
       (Inl (Error ''The argument command must be a string without null bytes''), ())
   \<and> snd (generateImageFromDot fs_ok sh_strict ''digraph example-package { }'' ''output''
         (Some (''dot'' @ [CHR 0x00])) \<lparr>world = (), trace = []\<rparr>) =
       \<lparr>world = (),
        trace =
          [WriteFile ''output.dot'' ''digraph example-package { }'' ''utf8'',
           ConsoleLog (DotSaved ''output.dot''),
           Exec ((''dot'' @ [CHR 0x00]) @ '' -Tsvg output.dot -o output.svg''),
           ConsoleError
             (ImageGenerationError
                ''The argument command must be a string without null bytes'')]\<rparr>"
  using
    generateImageFromDot_steps [where fs = fs_ok and sh = sh_ok and base = "''output''"
      and vis = "''customPathToDot''" and dot = "''digraph example-package { }''"
      and s = "\<lparr>world = (), trace = []\<rparr>" and written = None
      and ?w1.0 = "()" and ?w2.0 = "()" and ?w3.0 = "()"
      and ?x1.0 = "Inr \<lparr>exec_error = None, stdout = [], stderr = []\<rparr>"
      and ?x2.0 = "Inr \<lparr>exec_error = None, stdout = [], stderr = []\<rparr>"]
    generateImageFromDot_steps [where fs = fs_failing and sh = sh_ok and base = "''output''"
      and vis = "''customPathToDot''" and dot = "''digraph example-package { }''"
      and s = "\<lparr>world = (), trace = []\<rparr>"
      and written = "Some (Error ''EACCES: permission denied'')"
      and ?w1.0 = "()" and ?w2.0 = "()" and ?w3.0 = "()"
      and ?x1.0 = "Inr \<lparr>exec_error = None, stdout = [], stderr = []\<rparr>"
      and ?x2.0 = "Inr \<lparr>exec_error = None, stdout = [], stderr = []\<rparr>"]
    generateImageFromDot_steps [where fs = fs_ok and sh = sh_strict and base = "''output''"
      and vis = "''dot'' @ [CHR 0x00]" and dot = "''digraph example-package { }''"
      and s = "\<lparr>world = (), trace = []\<rparr>" and written = None
      and ?w1.0 = "()" and ?w2.0 = "()" and ?w3.0 = "()"
      and ?x1.0 = "Inl (Error ''The argument command must be a string without null bytes'')"
      and ?x2.0 = "Inr \<lparr>exec_error = None, stdout = [], stderr = []\<rparr>"]
  by (simp add: fs_ok_def fs_failing_def sh_ok_def sh_strict_def)

text \<open>
  C4. When the file write succeeds and the vector conversion fails (its callback receives
  an error, or any text on stderr), the run ends after printing that failure: the events
  are the write, its log line, the one call of \<^verbatim>\<open>exec\<close> for the SVG and the error line,
  so the raster conversion is never invoked.
\<close>

theorem svg_failure_skips_png:
  assumes wr: "fs (base @ ''.dot'') dot ''utf8'' (world s) = (None, w1)"
    and ex: "sh (vis @ '' -Tsvg '' @ base @ ''.dot'' @ '' -o '' @ base @ ''.svg'') w1 = (Inr r, w2)"
    and failed: "exec_error r \<noteq> None \<or> stderr r \<noteq> []"
  shows "generateImageFromDot fs sh dot base (Some vis) s =
           (Inr (),
            \<lparr>world = w2,
             trace = trace s @
               [WriteFile (base @ ''.dot'') dot ''utf8'',
                ConsoleLog (DotSaved (base @ ''.dot'')),
                Exec (vis @ '' -Tsvg '' @ base @ ''.dot'' @ '' -o '' @ base @ ''.svg''),
                ConsoleError
                  (case exec_error r of
                     Some e \<Rightarrow> SvgCommandError (message e)
                   | None \<Rightarrow> SvgStderr (stderr r))]\<rparr>)
         \<and> commands (trace (snd (generateImageFromDot fs sh dot base (Some vis) s))) =
             commands (trace s) @ [vis @ '' -Tsvg '' @ base @ ''.dot'' @ '' -o '' @ base @ ''.svg'']"
  using assms
  by (auto simp add: pipeline_defs commands_append split: option.splits)

theorem svg_failure_skips_png_witness:
  "fs_ok ''output.dot'' ''digraph g { }'' ''utf8'' () = (None, ())
   \<and> sh_failing ''customPathToDot -Tsvg output.dot -o output.svg'' () =
       (Inr \<lparr>exec_error = Some (Error ''Command failed''), stdout = [], stderr = []\<rparr>, ())
   \<and> commands (trace (snd (generateImageFromDot fs_ok sh_failing ''digraph g { }'' ''output''
       (Some ''customPathToDot'') \<lparr>world = (), trace = []\<rparr>))) =
     [''customPathToDot -Tsvg output.dot -o output.svg'']
   \<and> sh_warning ''customPathToDot -Tsvg output.dot -o output.svg'' () =
       (Inr \<lparr>exec_error = None, stdout = [], stderr = ''Warning: syntax ambiguity''\<rparr>, ())
   \<and> commands (trace (snd (generateImageFromDot fs_ok sh_warning ''digraph g { }'' ''output''
       (Some ''customPathToDot'') \<lparr>world = (), trace = []\<rparr>))) =
     [''customPathToDot -Tsvg output.dot -o output.svg'']"
  using
    svg_failure_skips_png [where fs = fs_ok and sh = sh_failing and base = "''output''"
      and vis = "''customPathToDot''" and dot = "''digraph g { }''"
      and s = "\<lparr>world = (), trace = []\<rparr>" and ?w1.0 = "()" and ?w2.0 = "()"
      and r = "\<lparr>exec_error = Some (Error ''Command failed''), stdout = [], stderr = []\<rparr>"]
    svg_failure_skips_png [where fs = fs_ok and sh = sh_warning and base = "''output''"
      and vis = "''customPathToDot''" and dot = "''digraph g { }''"
      and s = "\<lparr>world = (), trace = []\<rparr>" and ?w1.0 = "()" and ?w2.0 = "()"
      and r = "\<lparr>exec_error = None, stdout = [], stderr = ''Warning: syntax ambiguity''\<rparr>"]
  by (simp add: fs_ok_def sh_failing_def sh_warning_def)



section \<open>The resolver never throws\<close>

lemma getDependencies_Inr:
  "\<exists>forest s'. getDependencies ax p d m u s = (Inr forest, s')"
  by (simp add: getDependencies.simps catch_error_def split: prod.splits sum.splits)

lemma for_entries_Inr:
  "\<exists>out s'. for_entries ax names d m u result s = (Inr out, s')"
proof (induction names arbitrary: result s)
  case Nil
  show ?case by simp
next
  case (Cons nm names)
  obtain sub s1 where g: "getDependencies ax nm (d + 1) m u s = (Inr sub, s1)"
    using getDependencies_Inr by blast
  show ?case using Cons.IH [of "result @ [DependencyNode nm sub]" s1] g by simp
qed

lemma getDependencies_beyond: "m < d \<Longrightarrow> getDependencies ax p d m u s = (Inr [], s)"
  by (simp add: getDependencies.simps)

lemma axios_get_trace:
  "axios_get ax url s = (x, s1) \<Longrightarrow> trace s1 = trace s @ [HttpGet url]"
  by (auto simp add: axios_get_def emit_def split: prod.splits)

lemma catch_error_trace:
  "catch_error p e s1 = (r, s') \<Longrightarrow>
     r = Inr [] \<and> trace s' = trace s1 @ [ConsoleError (DependencyLoadError p (message e))]"
  by (auto simp add: catch_error_def emit_def)

text \<open>What a call within the depth bound does, by the outcome of its own fetch.\<close>

lemma getDependencies_failed:
  assumes "d \<le> m"
    and "axios_get ax (u @ ''/'' @ p @ ''/latest'') s = (x, s1)"
    and "x = Inl e \<or> (\<exists>response. x = Inr response \<and> response_dependencies response = Inl e)
          \<or> (\<exists>response deps. x = Inr response \<and> response_dependencies response = Inr deps
                \<and> entry_names deps = Inl e)"
  shows "getDependencies ax p d m u s = catch_error p e s1"
  using assms by (auto simp add: getDependencies.simps)

lemma getDependencies_fetched:
  assumes "d \<le> m"
    and "axios_get ax (u @ ''/'' @ p @ ''/latest'') s = (Inr response, s1)"
    and "response_dependencies response = Inr deps"
    and "entry_names deps = Inr names"
  shows "getDependencies ax p d m u s = for_entries ax names d m u [] s1"
proof -
  obtain out s2 where "for_entries ax names d m u [] s1 = (Inr out, s2)"
    using for_entries_Inr by blast
  then show ?thesis using assms by (simp add: getDependencies.simps)
qed

lemma getDependencies_outcomes:
  assumes "d \<le> m"
    and "axios_get ax (u @ ''/'' @ p @ ''/latest'') s = (x, s1)"
  shows "(\<exists>e. getDependencies ax p d m u s = catch_error p e s1)
       \<or> (\<exists>names. getDependencies ax p d m u s = for_entries ax names d m u [] s1)"
proof (cases x)
  case (Inl e)
  then show ?thesis using getDependencies_failed [OF assms, of e] by blast
next
  case (Inr response)
  show ?thesis
  proof (cases "response_dependencies response")
    case (Inl e)
    then show ?thesis using getDependencies_failed [OF assms, of e] \<open>x = Inr response\<close> by blast
  next
    case deps: (Inr deps)
    show ?thesis
    proof (cases "entry_names deps")
      case (Inl e)
      then show ?thesis
        using getDependencies_failed [OF assms, of e] \<open>x = Inr response\<close> deps by blast
    next
      case (Inr names)
      then show ?thesis
        using getDependencies_fetched [OF assms(1) _ deps Inr] assms(2) \<open>x = Inr response\<close> by blast
    qed
  qed
qed

lemma for_entries_in_turn:
  "\<exists>nodes s'. for_entries ax names d m u result s = (Inr (result @ nodes), s')
       \<and> map name nodes = names \<and> resolved_in_turn ax d m u s nodes s'"
proof (induction names arbitrary: result s)
  case Nil
  show ?case by simp
next
  case (Cons nm names)
  obtain sub s1 where g: "getDependencies ax nm (d + 1) m u s = (Inr sub, s1)"
    using getDependencies_Inr by blast
  obtain nodes s' where
    "for_entries ax names d m u (result @ [DependencyNode nm sub]) s1 =
       (Inr ((result @ [DependencyNode nm sub]) @ nodes), s')"
    and "map name nodes = names" and "resolved_in_turn ax d m u s1 nodes s'"
    using Cons.IH by blast
  then have "for_entries ax (nm # names) d m u result s =
       (Inr (result @ DependencyNode nm sub # nodes), s')
     \<and> map name (DependencyNode nm sub # nodes) = nm # names
     \<and> resolved_in_turn ax d m u s (DependencyNode nm sub # nodes) s'"
    using g by simp
  then show ?case
    by (intro exI [where x = "DependencyNode nm sub # nodes"] exI [where x = s'])
qed

text \<open>
  C2, as stated, fails in one clause: a failure to parse the body is not always reported.
  When the registry answers with status 200 and a body that is not JSON, axios hands the
  body over as a string; line 28 reads no \<^verbatim>\<open>dependencies\<close> from it and takes the empty
  object, so the call returns the empty array after its one request and prints nothing.
\<close>

theorem unparsed_body_not_reported:
  "getDependencies
     (constant_registry
        (JObj [(''status'', JNum (Finite 200)), (''data'', JStr ''<html>Bad Gateway</html>'')]))
     ''pkg'' 1 2 ''https://registry'' \<lparr>world = (), trace = []\<rparr> =
     (Inr [], \<lparr>world = (), trace = [HttpGet ''https://registry/pkg/latest'']\<rparr>)
   \<and> reports [HttpGet ''https://registry/pkg/latest''] = []"
  by (simp add: run_simps env_simps)

text \<open>
  C2, amended. For every input, \<open>getDependencies\<close> returns to its caller and never throws.
  Within the depth bound, a rejection of the request (a network failure, an HTTP status)
  and an exception while reading \<^verbatim>\<open>response.data.dependencies\<close> (a response without a
  body) are caught and printed, and the call returns the empty array; a body that arrives
  as a string gives the empty array without a line printed. When the fetch of the package
  succeeds, the result holds one node for each declared dependency name, in order, and the
  nodes were resolved in turn: every sibling gets its own recursive call, from the state
  the call before it left, whatever that call returned. So a failure makes its own node a
  leaf and aborts neither its siblings nor its ancestors.
\<close>

theorem getDependencies_never_raises:
  "(\<exists>forest s'. getDependencies ax packageName depth maxDepth url s = (Inr forest, s'))
   \<and> (depth \<le> maxDepth \<longrightarrow>
        (\<forall>e s1. axios_get ax (url @ ''/'' @ packageName @ ''/latest'') s = (Inl e, s1) \<longrightarrow>
           getDependencies ax packageName depth maxDepth url s =
             (Inr [], emit (ConsoleError (DependencyLoadError packageName (message e))) s1)))
   \<and> (depth \<le> maxDepth \<longrightarrow>
        (\<forall>response e s1. axios_get ax (url @ ''/'' @ packageName @ ''/latest'') s = (Inr response, s1)
             \<and> response_dependencies response = Inl e \<longrightarrow>
           getDependencies ax packageName depth maxDepth url s =
             (Inr [], emit (ConsoleError (DependencyLoadError packageName (message e))) s1)))
   \<and> (depth \<le> maxDepth \<longrightarrow>
        (\<forall>response raw s1. axios_get ax (url @ ''/'' @ packageName @ ''/latest'') s = (Inr response, s1)
             \<and> get_prop response ''data'' = Inr (JStr raw) \<longrightarrow>
           getDependencies ax packageName depth maxDepth url s = (Inr [], s1)))
   \<and> (depth \<le> maxDepth \<longrightarrow>
        (\<forall>response deps names s1.
           axios_get ax (url @ ''/'' @ packageName @ ''/latest'') s = (Inr response, s1)
             \<and> response_dependencies response = Inr deps \<and> entry_names deps = Inr names \<longrightarrow>
           (\<exists>forest s'. getDependencies ax packageName depth maxDepth url s = (Inr forest, s')
              \<and> map name forest = names
              \<and> resolved_in_turn ax depth maxDepth url s1 forest s')))"
proof (intro conjI impI allI)
  show "\<exists>forest s'. getDependencies ax packageName depth maxDepth url s = (Inr forest, s')"
    by (rule getDependencies_Inr)
next
  fix e s1
  assume "depth \<le> maxDepth"
    and "axios_get ax (url @ ''/'' @ packageName @ ''/latest'') s = (Inl e, s1)"
  then show "getDependencies ax packageName depth maxDepth url s =
      (Inr [], emit (ConsoleError (DependencyLoadError packageName (message e))) s1)"
    using getDependencies_failed [of depth maxDepth ax url packageName s "Inl e" s1 e]
    by (simp add: catch_error_def)
next
  fix response e s1
  assume "depth \<le> maxDepth"
    and "axios_get ax (url @ ''/'' @ packageName @ ''/latest'') s = (Inr response, s1)
     \<and> response_dependencies response = Inl e"
  then show "getDependencies ax packageName depth maxDepth url s =
      (Inr [], emit (ConsoleError (DependencyLoadError packageName (message e))) s1)"
    using getDependencies_failed [of depth maxDepth ax url packageName s "Inr response" s1 e]
    by (simp add: catch_error_def)
next
  fix response raw s1
  assume le: "depth \<le> maxDepth"
    and a: "axios_get ax (url @ ''/'' @ packageName @ ''/latest'') s = (Inr response, s1)
     \<and> get_prop response ''data'' = Inr (JStr raw)"
  then have "response_dependencies response = Inr (JObj [])" and "entry_names (JObj []) = Inr []"
    by (simp_all add: response_dependencies_def js_or_def entry_names_def own_property_order_def)
  then have "getDependencies ax packageName depth maxDepth url s =
      for_entries ax [] depth maxDepth url [] s1"
    using getDependencies_fetched le a by blast
  then show "getDependencies ax packageName depth maxDepth url s = (Inr [], s1)" by simp
next
  fix response deps names s1
  assume le: "depth \<le> maxDepth"
    and "axios_get ax (url @ ''/'' @ packageName @ ''/latest'') s = (Inr response, s1)
     \<and> response_dependencies response = Inr deps \<and> entry_names deps = Inr names"
  then have "getDependencies ax packageName depth maxDepth url s =
      for_entries ax names depth maxDepth url [] s1"
    using getDependencies_fetched by blast
  then show "\<exists>forest s'. getDependencies ax packageName depth maxDepth url s = (Inr forest, s')
      \<and> map name forest = names \<and> resolved_in_turn ax depth maxDepth url s1 forest s'"
    using for_entries_in_turn [of ax names depth maxDepth url "[]" s1] by simp
qed

theorem getDependencies_never_raises_witness:
  "getDependencies queue_registry ''root'' 1 2 ''https://registry''
     \<lparr>world =
        [Inr (response_with (JObj [(''a'', JObj []), (''b'', JObj []), (''c'', JObj [])])),
         Inl (Error ''Network Error''),
         Inr JUndefined,
         Inr (response_with (JObj []))],
      trace = []\<rparr> =
   (Inr [DependencyNode ''a'' [], DependencyNode ''b'' [], DependencyNode ''c'' []],
    \<lparr>world = [],
     trace =
       [HttpGet ''https://registry/root/latest'',
        HttpGet ''https://registry/a/latest'',
        ConsoleError (DependencyLoadError ''a'' ''Network Error''),
        HttpGet ''https://registry/b/latest'',
        ConsoleError (DependencyLoadError ''b''
          (''Cannot read properties of undefined (reading '' @ quote_char @ ''data'' @ quote_char @ '')'')),
        HttpGet ''https://registry/c/latest'']\<rparr>)
   \<and> resolved_in_turn queue_registry 1 2 ''https://registry''
       \<lparr>world = [Inl (Error ''Network Error''), Inr JUndefined, Inr (response_with (JObj []))],
        trace = [HttpGet ''https://registry/root/latest'']\<rparr>
       [DependencyNode ''a'' [], DependencyNode ''b'' [], DependencyNode ''c'' []]
       \<lparr>world = [],
        trace =
          [HttpGet ''https://registry/root/latest'',
           HttpGet ''https://registry/a/latest'',
           ConsoleError (DependencyLoadError ''a'' ''Network Error''),
           HttpGet ''https://registry/b/latest'',
           ConsoleError (DependencyLoadError ''b''
             (''Cannot read properties of undefined (reading '' @ quote_char @ ''data'' @ quote_char @ '')'')),
           HttpGet ''https://registry/c/latest'']\<rparr>"
proof -
  let ?s = "\<lparr>world =
        [Inr (response_with (JObj [(''a'', JObj []), (''b'', JObj []), (''c'', JObj [])])),
         Inl (Error ''Network Error''),
         Inr JUndefined,
         Inr (response_with (JObj []))],
      trace = []\<rparr>"
  have "\<exists>forest s'. getDependencies queue_registry ''root'' 1 2 ''https://registry'' ?s = (Inr forest, s')"
    using getDependencies_never_raises [of queue_registry "''root''" 1 2 "''https://registry''" ?s]
    by (rule conjunct1)
  then show ?thesis by (simp add: run_simps env_simps)
qed

section \<open>The depth bound\<close>

lemma fits_bound_mutual:
  "(\<forall>forest s'. getDependencies ax p d m u s = (Inr forest, s')
       \<longrightarrow> (\<forall>node \<in> set forest. fits (nat (m + 1 - d)) node))"
  "(\<forall>out s'. for_entries ax names d m u result s = (Inr out, s')
       \<longrightarrow> d \<le> m \<longrightarrow> (\<forall>node \<in> set result. fits (nat (m + 1 - d)) node)
       \<longrightarrow> (\<forall>node \<in> set out. fits (nat (m + 1 - d)) node))"
proof (induction ax p d m u s and ax names d m u result s rule: getDependencies_for_entries.induct)
  case (1 ax packageName depth maxDepth repositoryUrl s)
  show ?case
  proof (cases "maxDepth < depth")
    case True
    then show ?thesis by (simp add: getDependencies_beyond)
  next
    case False
    show ?thesis
    proof (intro allI impI)
      fix forest s'
      assume g: "getDependencies ax packageName depth maxDepth repositoryUrl s = (Inr forest, s')"
      obtain x y where a: "axios_get ax (repositoryUrl @ ''/'' @ packageName @ ''/latest'') s = (x, y)"
        by (cases "axios_get ax (repositoryUrl @ ''/'' @ packageName @ ''/latest'') s")
      show "\<forall>node \<in> set forest. fits (nat (maxDepth + 1 - depth)) node"
      proof (cases "\<exists>b ba bb. x = Inr b \<and> response_dependencies b = Inr ba \<and> entry_names ba = Inr bb")
        case True
        then obtain b ba bb where x: "x = Inr b" and rd: "response_dependencies b = Inr ba"
          and en: "entry_names ba = Inr bb" by blast
        obtain out s2 where f: "for_entries ax bb depth maxDepth repositoryUrl [] y = (Inr out, s2)"
          using for_entries_Inr by blast
        have "forest = out" using g False a x rd en f by (simp add: getDependencies.simps)
        moreover have "\<forall>node \<in> set out. fits (nat (maxDepth + 1 - depth)) node"
          using "1.IH" [OF False a [symmetric] x rd en] f False by simp
        ultimately show ?thesis by simp
      next
        case no: False
        have "forest = []" using g False a no
          by (auto simp add: getDependencies.simps catch_error_def split: sum.splits)
        then show ?thesis by simp
      qed
    qed
  qed
next
  case (2 ax depth maxDepth repositoryUrl result s)
  show ?case by simp
next
  case (3 ax nm names depth maxDepth repositoryUrl result s)
  show ?case
  proof (intro allI impI)
    fix out s'
    assume f: "for_entries ax (nm # names) depth maxDepth repositoryUrl result s = (Inr out, s')"
      and le: "depth \<le> maxDepth"
      and acc: "\<forall>node \<in> set result. fits (nat (maxDepth + 1 - depth)) node"
    obtain sub s1 where g: "getDependencies ax nm (depth + 1) maxDepth repositoryUrl s = (Inr sub, s1)"
      using getDependencies_Inr by blast
    have sub: "\<forall>node \<in> set sub. fits (nat (maxDepth - depth)) node"
      using "3.IH"(1) g by simp
    have suc: "nat (maxDepth + 1 - depth) = Suc (nat (maxDepth - depth))" using le by simp
    have new: "fits (nat (maxDepth + 1 - depth)) (DependencyNode nm sub)"
      unfolding suc using sub by simp
    have f': "for_entries ax names depth maxDepth repositoryUrl (result @ [DependencyNode nm sub]) s1 = (Inr out, s')"
      using f g by simp
    show "\<forall>node \<in> set out. fits (nat (maxDepth + 1 - depth)) node"
      using "3.IH"(2) [OF g [symmetric] refl] f' le acc new by simp
  qed
qed

lemma nodes_at_Nil: "nodes_at k [] = []"
  by (induction k "[] :: DependencyNode list" rule: nodes_at.induct) simp_all

lemma nodes_at_Suc:
  "nodes_at (Suc (Suc k)) forest = concat (map dependencies (nodes_at (Suc k) forest))"
  by (induction k arbitrary: forest) simp_all

lemma fits_children: "fits (Suc h) node \<Longrightarrow> d \<in> set (dependencies node) \<Longrightarrow> fits h d"
  by (cases node) simp

lemma fits_nodes_at:
  "\<forall>node \<in> set forest. fits h node \<Longrightarrow> h < k \<Longrightarrow> nodes_at k forest = []"
proof (induction k forest arbitrary: h rule: nodes_at.induct)
  case (1 forest)
  then show ?case by simp
next
  case (2 forest)
  then have "set forest = {}" by auto
  then show ?case by simp
next
  case (3 k forest)
  show ?case
  proof (cases h)
    case 0
    with 3 have "set forest = {}" by auto
    then have "forest = []" by simp
    then show ?thesis by (simp add: nodes_at_Nil)
  next
    case (Suc h')
    have "\<forall>node \<in> set (concat (map dependencies forest)). fits h' node"
      using "3.prems"(1) fits_children unfolding Suc by auto
    moreover have "h' < Suc k" using "3.prems"(2) Suc by simp
    ultimately have "nodes_at (Suc k) (concat (map dependencies forest)) = []"
      by (rule "3.IH")
    then show ?thesis by simp
  qed
qed

text \<open>
  C1. For every \<open>maxDepth = d \<ge> 1\<close> and every registry, the forest that
  \<open>getDependencies rootPackage 1 d url\<close> returns has no node at a depth greater than \<open>d\<close>
  (the nodes the root call returns are at depth 1), and every node at depth \<open>d\<close> has an
  empty \<^verbatim>\<open>dependencies\<close>.
\<close>

theorem depth_bound:
  assumes "1 \<le> d"
  shows "\<exists>forest s'. getDependencies ax rootPackage 1 d url s = (Inr forest, s')
           \<and> (\<forall>k. d < int k \<longrightarrow> nodes_at k forest = [])
           \<and> (\<forall>node \<in> set (nodes_at (nat d) forest). dependencies node = [])"
proof -
  obtain forest s' where g: "getDependencies ax rootPackage 1 d url s = (Inr forest, s')"
    using getDependencies_Inr by blast
  have fits: "\<forall>node \<in> set forest. fits (nat d) node"
    using fits_bound_mutual(1) [of ax rootPackage 1 d url s] g by simp
  have beyond: "nodes_at k forest = []" if "d < int k" for k
  proof -
    have "nat d < k" using that assms by linarith
    then show ?thesis by (rule fits_nodes_at [OF fits])
  qed
  obtain j where j: "nat d = Suc j" using assms by (cases "nat d") simp_all
  have "nodes_at (Suc (Suc j)) forest = []" using beyond [of "Suc (Suc j)"] j by linarith
  then have "\<forall>node \<in> set (nodes_at (Suc j) forest). dependencies node = []"
    by (simp add: nodes_at_Suc del: nodes_at.simps)
  then show ?thesis using g beyond j by simp
qed

theorem depth_bound_witness:
  "(1::int) \<le> 2
   \<and> fst (getDependencies
         (constant_registry (response_with (JObj [(''a'', JObj []), (''b'', JObj [])])))
         ''a'' 1 2 ''https://registry'' \<lparr>world = (), trace = []\<rparr>) =
       Inr [DependencyNode ''a'' [DependencyNode ''a'' [], DependencyNode ''b'' []],
            DependencyNode ''b'' [DependencyNode ''a'' [], DependencyNode ''b'' []]]
   \<and> nodes_at 3
         [DependencyNode ''a'' [DependencyNode ''a'' [], DependencyNode ''b'' []],
          DependencyNode ''b'' [DependencyNode ''a'' [], DependencyNode ''b'' []]] = []
   \<and> map dependencies (nodes_at 2
         [DependencyNode ''a'' [DependencyNode ''a'' [], DependencyNode ''b'' []],
          DependencyNode ''b'' [DependencyNode ''a'' [], DependencyNode ''b'' []]]) = [[], [], [], []]"
proof -
  let ?R = "constant_registry (response_with (JObj [(''a'', JObj []), (''b'', JObj [])]))"
  let ?F = "[DependencyNode ''a'' [DependencyNode ''a'' [], DependencyNode ''b'' []],
             DependencyNode ''b'' [DependencyNode ''a'' [], DependencyNode ''b'' []]]"
  have run: "fst (getDependencies ?R ''a'' 1 2 ''https://registry'' \<lparr>world = (), trace = []\<rparr>) = Inr ?F"
    by (simp add: run_simps env_simps)
  obtain forest s' where
    g: "getDependencies ?R ''a'' 1 2 ''https://registry'' \<lparr>world = (), trace = []\<rparr> = (Inr forest, s')"
    and beyond: "\<forall>k. 2 < int k \<longrightarrow> nodes_at k forest = []"
    and leaves: "\<forall>node \<in> set (nodes_at (nat 2) forest). dependencies node = []"
    using depth_bound [of 2 ?R "''a''" "''https://registry''" "\<lparr>world = (), trace = []\<rparr>"]
    by auto
  have f: "forest = ?F" using run g by simp
  have "nodes_at 3 ?F = []" using beyond f by simp
  moreover have "map dependencies (nodes_at 2 ?F) = [[], [], [], []]"
    by (simp add: numeral_2_eq_2)
  ultimately show ?thesis using run by simp
qed

section \<open>One request for each call\<close>

lemma requests_append: "requests (xs @ ys) = requests xs @ requests ys"
  by (induction xs rule: requests.induct) simp_all

lemma requests_mutual:
  "(\<forall>forest s'. getDependencies ax p d m u s = (Inr forest, s')
       \<longrightarrow> (\<exists>evs. trace s' = trace s @ evs
              \<and> requests evs = node_requests u (nat (m + 1 - d)) (DependencyNode p forest)))"
  "(\<forall>out s'. for_entries ax names d m u result s = (Inr out, s')
       \<longrightarrow> (\<exists>nodes evs. out = result @ nodes \<and> trace s' = trace s @ evs
              \<and> requests evs = concat (map (node_requests u (nat (m - d))) nodes)))"
proof (induction ax p d m u s and ax names d m u result s rule: getDependencies_for_entries.induct)
  case (1 ax packageName depth maxDepth repositoryUrl s)
  let ?U = "repositoryUrl @ ''/'' @ packageName @ ''/latest''"
  show ?case
  proof (cases "maxDepth < depth")
    case True
    then show ?thesis by (simp add: getDependencies_beyond)
  next
    case False
    then have le: "depth \<le> maxDepth" by simp
    have suc: "nat (maxDepth + 1 - depth) = Suc (nat (maxDepth - depth))" using le by simp
    obtain x s1 where a: "axios_get ax ?U s = (x, s1)" by (cases "axios_get ax ?U s")
    have t1: "trace s1 = trace s @ [HttpGet ?U]" using a by (rule axios_get_trace)
    show ?thesis
    proof (intro allI impI)
      fix forest s'
      assume g: "getDependencies ax packageName depth maxDepth repositoryUrl s = (Inr forest, s')"
      show "\<exists>evs. trace s' = trace s @ evs
              \<and> requests evs = node_requests repositoryUrl (nat (maxDepth + 1 - depth))
                   (DependencyNode packageName forest)"
      proof (cases "\<exists>b ba bb. x = Inr b \<and> response_dependencies b = Inr ba \<and> entry_names ba = Inr bb")
        case True
        then obtain b ba bb where x: "x = Inr b" and rd: "response_dependencies b = Inr ba"
          and en: "entry_names ba = Inr bb" by blast
        have f: "for_entries ax bb depth maxDepth repositoryUrl [] s1 = (Inr forest, s')"
          using getDependencies_fetched [OF le a [unfolded x] rd en] g by simp
        obtain nodes evs where "forest = [] @ nodes" and "trace s' = trace s1 @ evs"
          and "requests evs = concat (map (node_requests repositoryUrl (nat (maxDepth - depth))) nodes)"
          using "1.IH" [OF False a [symmetric] x rd en] f by blast
        then have "trace s' = trace s @ (HttpGet ?U # evs)
           \<and> requests (HttpGet ?U # evs) = node_requests repositoryUrl (nat (maxDepth + 1 - depth))
                   (DependencyNode packageName forest)"
          unfolding suc using t1 by simp
        then show ?thesis by (intro exI [where x = "HttpGet ?U # evs"])
      next
        case no: False
        have "\<exists>e. getDependencies ax packageName depth maxDepth repositoryUrl s = catch_error packageName e s1"
          using a False no by (auto simp add: getDependencies.simps split: sum.splits)
        then obtain e where "catch_error packageName e s1 = (Inr forest, s')" using g by auto
        then have "forest = []"
          and "trace s' = trace s1 @ [ConsoleError (DependencyLoadError packageName (message e))]"
          using catch_error_trace by blast+
        then have "trace s' = trace s @ [HttpGet ?U, ConsoleError (DependencyLoadError packageName (message e))]
           \<and> requests [HttpGet ?U, ConsoleError (DependencyLoadError packageName (message e))]
               = node_requests repositoryUrl (nat (maxDepth + 1 - depth))
                   (DependencyNode packageName forest)"
          unfolding suc using t1 by simp
        then show ?thesis
          by (intro exI [where x = "[HttpGet ?U, ConsoleError (DependencyLoadError packageName (message e))]"])
      qed
    qed
  qed
next
  case (2 ax depth maxDepth repositoryUrl result s)
  show ?case by simp
next
  case (3 ax nm names depth maxDepth repositoryUrl result s)
  show ?case
  proof (intro allI impI)
    fix out s'
    assume f: "for_entries ax (nm # names) depth maxDepth repositoryUrl result s = (Inr out, s')"
    obtain sub s1 where g: "getDependencies ax nm (depth + 1) maxDepth repositoryUrl s = (Inr sub, s1)"
      using getDependencies_Inr by blast
    obtain evs1 where t1: "trace s1 = trace s @ evs1"
      and r1: "requests evs1 = node_requests repositoryUrl (nat (maxDepth - depth)) (DependencyNode nm sub)"
      using "3.IH"(1) g by auto
    have f': "for_entries ax names depth maxDepth repositoryUrl (result @ [DependencyNode nm sub]) s1 = (Inr out, s')"
      using f g by simp
    obtain nodes evs where o: "out = (result @ [DependencyNode nm sub]) @ nodes"
      and t2: "trace s' = trace s1 @ evs"
      and r2: "requests evs = concat (map (node_requests repositoryUrl (nat (maxDepth - depth))) nodes)"
      using "3.IH"(2) [OF g [symmetric] refl] f' by blast
    have "out = result @ (DependencyNode nm sub # nodes) \<and> trace s' = trace s @ (evs1 @ evs)
       \<and> requests (evs1 @ evs) =
           concat (map (node_requests repositoryUrl (nat (maxDepth - depth))) (DependencyNode nm sub # nodes))"
      using o t1 t2 r1 r2 by (simp add: requests_append)
    then show "\<exists>nodes evs. out = result @ nodes \<and> trace s' = trace s @ evs
              \<and> requests evs = concat (map (node_requests repositoryUrl (nat (maxDepth - depth))) nodes)"
      by (intro exI [where x = "DependencyNode nm sub # nodes"] exI [where x = "evs1 @ evs"])
  qed
qed

text \<open>
  C6. A call with \<open>depth > maxDepth\<close> returns the empty array at once and leaves the state
  as it was, so it issues no request. Every other call first issues one request, to
  \<^verbatim>\<open><url>/<name>/latest\<close>; all the requests that follow it are those of the recursive
  resolutions of the returned dependency names, in order.
\<close>

theorem one_request_per_call:
  "(maxDepth < depth \<longrightarrow> getDependencies ax packageName depth maxDepth url s = (Inr [], s))
   \<and> (depth \<le> maxDepth \<longrightarrow>
        (\<exists>forest s' rest. getDependencies ax packageName depth maxDepth url s = (Inr forest, s')
           \<and> trace s' = trace s @ HttpGet (url @ ''/'' @ packageName @ ''/latest'') # rest
           \<and> requests rest = concat (map (node_requests url (nat (maxDepth - depth))) forest)))"
proof (intro conjI impI)
  assume "maxDepth < depth"
  then show "getDependencies ax packageName depth maxDepth url s = (Inr [], s)" by (rule getDependencies_beyond)
next
  let ?U = "url @ ''/'' @ packageName @ ''/latest''"
  assume le: "depth \<le> maxDepth"
  obtain x s1 where a: "axios_get ax ?U s = (x, s1)" by (cases "axios_get ax ?U s")
  have t1: "trace s1 = trace s @ [HttpGet ?U]" using a by (rule axios_get_trace)
  from getDependencies_outcomes [OF le a]
  show "\<exists>forest s' rest. getDependencies ax packageName depth maxDepth url s = (Inr forest, s')
           \<and> trace s' = trace s @ HttpGet ?U # rest
           \<and> requests rest = concat (map (node_requests url (nat (maxDepth - depth))) forest)"
  proof
    assume "\<exists>e. getDependencies ax packageName depth maxDepth url s = catch_error packageName e s1"
    then obtain e where "getDependencies ax packageName depth maxDepth url s = catch_error packageName e s1" by blast
    then have "getDependencies ax packageName depth maxDepth url s =
        (Inr [], emit (ConsoleError (DependencyLoadError packageName (message e))) s1)
      \<and> trace (emit (ConsoleError (DependencyLoadError packageName (message e))) s1) =
          trace s @ HttpGet ?U # [ConsoleError (DependencyLoadError packageName (message e))]
      \<and> requests [ConsoleError (DependencyLoadError packageName (message e))] =
          concat (map (node_requests url (nat (maxDepth - depth))) [])"
      using t1 by (simp add: catch_error_def emit_def)
    then show ?thesis
      by (intro exI [where x = "[]"]
            exI [where x = "emit (ConsoleError (DependencyLoadError packageName (message e))) s1"]
            exI [where x = "[ConsoleError (DependencyLoadError packageName (message e))]"])
  next
    assume "\<exists>names. getDependencies ax packageName depth maxDepth url s = for_entries ax names depth maxDepth url [] s1"
    then obtain names where g: "getDependencies ax packageName depth maxDepth url s = for_entries ax names depth maxDepth url [] s1"
      by blast
    obtain out s' where f: "for_entries ax names depth maxDepth url [] s1 = (Inr out, s')"
      using for_entries_Inr by blast
    obtain nodes evs where "out = [] @ nodes" and "trace s' = trace s1 @ evs"
      and "requests evs = concat (map (node_requests url (nat (maxDepth - depth))) nodes)"
      using requests_mutual(2) [of ax names depth maxDepth url "[]" s1] f by blast
    then have "getDependencies ax packageName depth maxDepth url s = (Inr out, s')
      \<and> trace s' = trace s @ HttpGet ?U # evs
      \<and> requests evs = concat (map (node_requests url (nat (maxDepth - depth))) out)"
      using g f t1 by simp
    then show ?thesis by (intro exI [where x = out] exI [where x = s'] exI [where x = evs])
  qed
qed

theorem one_request_per_call_witness:
  "(2::int) < 3
   \<and> getDependencies
         (constant_registry (response_with (JObj [(''a'', JObj []), (''b'', JObj [])])))
         ''a'' 3 2 ''https://registry'' \<lparr>world = (), trace = []\<rparr> =
       (Inr [], \<lparr>world = (), trace = []\<rparr>)
   \<and> (1::int) \<le> 2
   \<and> getDependencies
         (constant_registry (response_with (JObj [(''a'', JObj []), (''b'', JObj [])])))
         ''a'' 1 2 ''https://registry'' \<lparr>world = (), trace = []\<rparr> =
       (Inr [DependencyNode ''a'' [DependencyNode ''a'' [], DependencyNode ''b'' []],
             DependencyNode ''b'' [DependencyNode ''a'' [], DependencyNode ''b'' []]],
        \<lparr>world = (),
         trace =
           [HttpGet ''https://registry/a/latest'',
            HttpGet ''https://registry/a/latest'',
            HttpGet ''https://registry/b/latest'']\<rparr>)
   \<and> requests [HttpGet ''https://registry/a/latest'', HttpGet ''https://registry/b/latest''] =
       concat (map (node_requests ''https://registry'' (nat (2 - 1)))
         [DependencyNode ''a'' [DependencyNode ''a'' [], DependencyNode ''b'' []],
          DependencyNode ''b'' [DependencyNode ''a'' [], DependencyNode ''b'' []]])"
  using
    one_request_per_call [of 2 3
      "constant_registry (response_with (JObj [(''a'', JObj []), (''b'', JObj [])]))"
      "''a''" "''https://registry''" "\<lparr>world = (), trace = []\<rparr>"]
    one_request_per_call [of 2 1
      "constant_registry (response_with (JObj [(''a'', JObj []), (''b'', JObj [])]))"
      "''a''" "''https://registry''" "\<lparr>world = (), trace = []\<rparr>"]
  by (simp add: run_simps env_simps)

section \<open>Scenarios\<close>

text \<open>
  C7. When the registry answers the request for the root package with a body whose
  dependencies are \<^verbatim>\<open>{dep1: {}, dep2: {}}\<close>, and then the requests for \<^verbatim>\<open>dep1\<close> and
  \<^verbatim>\<open>dep2\<close> with bodies whose dependencies are empty or absent,
  \<open>getDependencies root 1 2 url\<close> returns exactly the two leaves \<^verbatim>\<open>dep1\<close> and \<^verbatim>\<open>dep2\<close>,
  in the order of the fields. The three requests are issued one after the other: the one
  for \<^verbatim>\<open>dep2\<close> is answered in the world that the resolution of \<^verbatim>\<open>dep1\<close> left.
\<close>

theorem two_dependencies_scenario:
  assumes "ax (url @ ''/'' @ rootPackage @ ''/latest'') (world s) = (Inr r0, w1)"
    and "get_prop r0 ''data'' = Inr b0"
    and "get_prop b0 ''dependencies'' = Inr (JObj [(''dep1'', JObj []), (''dep2'', JObj [])])"
    and "ax (url @ ''/'' @ ''dep1'' @ ''/latest'') w1 = (Inr r1, w2)"
    and "get_prop r1 ''data'' = Inr b1"
    and "get_prop b1 ''dependencies'' = Inr d1"
    and "d1 = JObj [] \<or> d1 = JUndefined"
    and "ax (url @ ''/'' @ ''dep2'' @ ''/latest'') w2 = (Inr r2, w3)"
    and "get_prop r2 ''data'' = Inr b2"
    and "get_prop b2 ''dependencies'' = Inr d2"
    and "d2 = JObj [] \<or> d2 = JUndefined"
  shows "getDependencies ax rootPackage 1 2 url s =
           (Inr [DependencyNode ''dep1'' [], DependencyNode ''dep2'' []],
            s\<lparr>world := w3,
              trace := trace s @
                [HttpGet (url @ ''/'' @ rootPackage @ ''/latest''),
                 HttpGet (url @ ''/'' @ ''dep1'' @ ''/latest''),
                 HttpGet (url @ ''/'' @ ''dep2'' @ ''/latest'')]\<rparr>)"
  using assms by (auto simp add: run_simps)

theorem two_dependencies_scenario_witness:
  "getDependencies queue_registry ''example-package'' 1 2 ''https://api.example.com''
     \<lparr>world =
        [Inr (response_with (JObj [(''dep1'', JObj []), (''dep2'', JObj [])])),
         Inr (response_with (JObj [])),
         Inr (JObj [(''data'', JObj [])])],
      trace = []\<rparr> =
   (Inr [DependencyNode ''dep1'' [], DependencyNode ''dep2'' []],
    \<lparr>world = [],
     trace =
       [HttpGet ''https://api.example.com/example-package/latest'',
        HttpGet ''https://api.example.com/dep1/latest'',
        HttpGet ''https://api.example.com/dep2/latest'']\<rparr>)"
  using two_dependencies_scenario
    [where ax = queue_registry and url = "''https://api.example.com''"
       and rootPackage = "''example-package''"
       and s = "\<lparr>world =
          [Inr (response_with (JObj [(''dep1'', JObj []), (''dep2'', JObj [])])),
           Inr (response_with (JObj [])),
           Inr (JObj [(''data'', JObj [])])],
          trace = []\<rparr>"
       and ?r0.0 = "response_with (JObj [(''dep1'', JObj []), (''dep2'', JObj [])])"
       and ?b0.0 = "JObj [(''name'', JStr ''pkg''),
                          (''dependencies'', JObj [(''dep1'', JObj []), (''dep2'', JObj [])])]"
       and ?w1.0 = "[Inr (response_with (JObj [])), Inr (JObj [(''data'', JObj [])])]"
       and ?r1.0 = "response_with (JObj [])"
       and ?b1.0 = "JObj [(''name'', JStr ''pkg''), (''dependencies'', JObj [])]"
       and ?d1.0 = "JObj []"
       and ?w2.0 = "[Inr (JObj [(''data'', JObj [])])]"
       and ?r2.0 = "JObj [(''data'', JObj [])]"
       and ?b2.0 = "JObj []"
       and ?d2.0 = JUndefined
       and ?w3.0 = "[]"]
  by (simp add: env_simps)

text \<open>The falsy values of the embedding.\<close>

lemma falsy_values:
  "\<not> truthy v \<longleftrightarrow>
     v \<in> {JUndefined, JNull, JBool False, JNum NaN, JNum NegZero, JNum (Finite 0), JBigInt 0, JStr []}"
  by (cases v) auto

text \<open>
  C10. When the \<^verbatim>\<open>dependencies\<close> field of the response body is any falsy value (absent
  or \<^verbatim>\<open>undefined\<close>, \<^verbatim>\<open>null\<close>, \<^verbatim>\<open>0\<close>, the empty string, \<^verbatim>\<open>false\<close>), a call within the
  depth bound takes it for the empty object: it returns the empty array, after its one
  request and without printing an error, so the package is a leaf.
\<close>

theorem falsy_dependencies_leaf:
  assumes "depth \<le> maxDepth"
    and "ax (url @ ''/'' @ p @ ''/latest'') (world s) = (Inr response, w1)"
    and "get_prop response ''data'' = Inr b"
    and "get_prop b ''dependencies'' = Inr v"
    and "\<not> truthy v"
  shows "getDependencies ax p depth maxDepth url s =
           (Inr [], s\<lparr>world := w1, trace := trace s @ [HttpGet (url @ ''/'' @ p @ ''/latest'')]\<rparr>)"
  using assms by (simp add: run_simps)

theorem falsy_dependencies_leaf_witness:
  "\<not> truthy (JNum (Finite 0)) \<and> \<not> truthy (JStr []) \<and> \<not> truthy JNull \<and> \<not> truthy (JBool False)
   \<and> getDependencies (constant_registry (response_with (JNum (Finite 0))))
        ''pkg'' 1 3 ''https://registry'' \<lparr>world = (), trace = []\<rparr> =
       (Inr [], \<lparr>world = (), trace = [HttpGet ''https://registry/pkg/latest'']\<rparr>)
   \<and> getDependencies (constant_registry (response_with (JStr [])))
        ''pkg'' 1 3 ''https://registry'' \<lparr>world = (), trace = []\<rparr> =
       (Inr [], \<lparr>world = (), trace = [HttpGet ''https://registry/pkg/latest'']\<rparr>)
   \<and> getDependencies (constant_registry (JObj [(''data'', JObj [])]))
        ''pkg'' 1 3 ''https://registry'' \<lparr>world = (), trace = []\<rparr> =
       (Inr [], \<lparr>world = (), trace = [HttpGet ''https://registry/pkg/latest'']\<rparr>)"
  using
    falsy_dependencies_leaf [where ax = "constant_registry (response_with (JNum (Finite 0)))"
      and depth = 1 and maxDepth = 3 and url = "''https://registry''" and p = "''pkg''"
      and s = "\<lparr>world = (), trace = []\<rparr>" and ?w1.0 = "()"
      and response = "response_with (JNum (Finite 0))"
      and b = "JObj [(''name'', JStr ''pkg''), (''dependencies'', JNum (Finite 0))]"
      and v = "JNum (Finite 0)"]
    falsy_dependencies_leaf [where ax = "constant_registry (response_with (JStr []))"
      and depth = 1 and maxDepth = 3 and url = "''https://registry''" and p = "''pkg''"
      and s = "\<lparr>world = (), trace = []\<rparr>" and ?w1.0 = "()"
      and response = "response_with (JStr [])"
      and b = "JObj [(''name'', JStr ''pkg''), (''dependencies'', JStr [])]"
      and v = "JStr []"]
    falsy_dependencies_leaf [where ax = "constant_registry (JObj [(''data'', JObj [])])"
      and depth = 1 and maxDepth = 3 and url = "''https://registry''" and p = "''pkg''"
      and s = "\<lparr>world = (), trace = []\<rparr>" and ?w1.0 = "()"
      and response = "JObj [(''data'', JObj [])]"
      and b = "JObj []"
      and v = JUndefined]
  by (simp add: env_simps)

end
